theory Spec2Isabelle
  imports Complex_Main
begin

section \<open>The WebGL2 context used by the render target\<close>

text \<open>
  \<^verbatim>\<open>RenderTarget\<close> (src/engine/Graphics/Context/render-target.ts) keeps a reference
  \<^verbatim>\<open>_gl\<close> to a \<^verbatim>\<open>WebGL2RenderingContext\<close> and works by calling it. The context is
  shared mutable state of the platform, so it is passed explicitly: every method takes the
  context and returns the updated one. Only the part of the context that the class touches
  is kept: the three binding points, the viewport, the object name allocator, and what is
  stored in textures, renderbuffers and framebuffers. \<^verbatim>\<open>number\<close> is \<open>int\<close>;
  \<^verbatim>\<open>null\<close> and \<^verbatim>\<open>undefined\<close> are \<open>None\<close>. Calls are modelled for a live
  context: a create call returns a new object.
\<close>

datatype attachment = Renderbuffer nat | Texture2D nat

datatype tex_pname = TEXTURE_MIN_FILTER | TEXTURE_MAG_FILTER | TEXTURE_WRAP_S | TEXTURE_WRAP_T

datatype tex_pvalue = NEAREST | CLAMP_TO_EDGE

record gl_context =
  MAX_SAMPLES :: int
  next_name :: nat
  FRAMEBUFFER_BINDING :: "nat option"
  TEXTURE_BINDING_2D :: "nat option"
  RENDERBUFFER_BINDING :: "nat option"
  VIEWPORT :: "int \<times> int \<times> int \<times> int"
  texture_image :: "nat \<Rightarrow> (int \<times> int) option"
  texture_param :: "nat \<Rightarrow> tex_pname \<Rightarrow> tex_pvalue option"
  renderbuffer_storage :: "nat \<Rightarrow> (int \<times> int \<times> int) option"
  color_attachment0 :: "nat \<Rightarrow> attachment option"

definition createRenderbuffer :: "gl_context \<Rightarrow> nat \<times> gl_context" where
  "createRenderbuffer gl = (next_name gl, gl\<lparr>next_name := Suc (next_name gl)\<rparr>)"

definition createFramebuffer :: "gl_context \<Rightarrow> nat \<times> gl_context" where
  "createFramebuffer gl = (next_name gl, gl\<lparr>next_name := Suc (next_name gl)\<rparr>)"

definition createTexture :: "gl_context \<Rightarrow> nat \<times> gl_context" where
  "createTexture gl = (next_name gl, gl\<lparr>next_name := Suc (next_name gl)\<rparr>)"

definition bindRenderbuffer :: "nat option \<Rightarrow> gl_context \<Rightarrow> gl_context" where
  "bindRenderbuffer rb gl = gl\<lparr>RENDERBUFFER_BINDING := rb\<rparr>"

definition bindFramebuffer :: "nat option \<Rightarrow> gl_context \<Rightarrow> gl_context" where
  "bindFramebuffer fb gl = gl\<lparr>FRAMEBUFFER_BINDING := fb\<rparr>"

definition bindTexture :: "nat option \<Rightarrow> gl_context \<Rightarrow> gl_context" where
  "bindTexture t gl = gl\<lparr>TEXTURE_BINDING_2D := t\<rparr>"

text \<open>The storage calls act on the object bound at the moment; with nothing bound they
  change nothing.\<close>

definition renderbufferStorageMultisample :: "int \<Rightarrow> int \<Rightarrow> int \<Rightarrow> gl_context \<Rightarrow> gl_context" where
  "renderbufferStorageMultisample n w h gl =
     (case RENDERBUFFER_BINDING gl of
        None \<Rightarrow> gl
      | Some rb \<Rightarrow> gl\<lparr>renderbuffer_storage := (renderbuffer_storage gl)(rb \<mapsto> (n, w, h))\<rparr>)"

definition texImage2D :: "int \<Rightarrow> int \<Rightarrow> gl_context \<Rightarrow> gl_context" where
  "texImage2D w h gl =
     (case TEXTURE_BINDING_2D gl of
        None \<Rightarrow> gl
      | Some t \<Rightarrow> gl\<lparr>texture_image := (texture_image gl)(t \<mapsto> (w, h))\<rparr>)"

definition texParameteri :: "tex_pname \<Rightarrow> tex_pvalue \<Rightarrow> gl_context \<Rightarrow> gl_context" where
  "texParameteri p v gl =
     (case TEXTURE_BINDING_2D gl of
        None \<Rightarrow> gl
      | Some t \<Rightarrow> gl\<lparr>texture_param := (texture_param gl)(t := (texture_param gl t)(p \<mapsto> v))\<rparr>)"

definition framebufferRenderbuffer :: "nat option \<Rightarrow> gl_context \<Rightarrow> gl_context" where
  "framebufferRenderbuffer rb gl =
     (case FRAMEBUFFER_BINDING gl of
        None \<Rightarrow> gl
      | Some fb \<Rightarrow> gl\<lparr>color_attachment0 := (color_attachment0 gl)(fb := map_option Renderbuffer rb)\<rparr>)"

definition framebufferTexture2D :: "nat option \<Rightarrow> gl_context \<Rightarrow> gl_context" where
  "framebufferTexture2D t gl =
     (case FRAMEBUFFER_BINDING gl of
        None \<Rightarrow> gl
      | Some fb \<Rightarrow> gl\<lparr>color_attachment0 := (color_attachment0 gl)(fb := map_option Texture2D t)\<rparr>)"

definition viewport :: "int \<Rightarrow> int \<Rightarrow> int \<Rightarrow> int \<Rightarrow> gl_context \<Rightarrow> gl_context" where
  "viewport x y w h gl = gl\<lparr>VIEWPORT := (x, y, w, h)\<rparr>"

section \<open>RenderTarget\<close>

text \<open>
  The class has four public fields and four private ones, each private one read through a
  getter of the same name without the underscore; the private field \<^verbatim>\<open>_renderBuffer\<close>
  is \<open>priv_renderBuffer\<close> here, and so on. A private field that no assignment has reached
  yet is \<^verbatim>\<open>undefined\<close>.
\<close>

record render_target =
  width :: int
  height :: int
  antialias :: bool
  samples :: int
  priv_renderBuffer :: "nat option"
  priv_renderFrameBuffer :: "nat option"
  priv_frameBuffer :: "nat option"
  priv_frameTexture :: "nat option"

record render_target_options =
  opt_width :: int
  opt_height :: int
  opt_antialias :: "bool option"
  opt_samples :: "int option"

definition renderBuffer :: "render_target \<Rightarrow> nat option" where
  "renderBuffer rt = priv_renderBuffer rt"

definition renderFrameBuffer :: "render_target \<Rightarrow> nat option" where
  "renderFrameBuffer rt = priv_renderFrameBuffer rt"

definition frameBuffer :: "render_target \<Rightarrow> nat option" where
  "frameBuffer rt = priv_frameBuffer rt"

definition frameTexture :: "render_target \<Rightarrow> nat option" where
  "frameTexture rt = priv_frameTexture rt"

text \<open>\<^verbatim>\<open>disable()\<close>: drawing goes back to the canvas.\<close>

definition disable :: "render_target \<Rightarrow> gl_context \<Rightarrow> gl_context" where
  "disable rt gl = bindTexture None (bindFramebuffer None gl)"


text \<open>\<^verbatim>\<open>setResolution(width, height)\<close>: the fields are assigned first, then the backing
  texture is resized, then the renderbuffer if there is one.\<close>

definition setResolution :: "int \<Rightarrow> int \<Rightarrow> render_target \<Rightarrow> gl_context \<Rightarrow> render_target \<times> gl_context" where
  "setResolution w h rt gl =
     (let rt1 = rt\<lparr>width := w, height := h\<rparr>;
          gl1 = bindTexture (priv_frameTexture rt1) gl;
          gl2 = texImage2D (width rt1) (height rt1) gl1
      in if priv_renderBuffer rt1 \<noteq> None then
           let gl3 = bindRenderbuffer (priv_renderBuffer rt1) gl2;
               gl4 = renderbufferStorageMultisample (min (samples rt1) (MAX_SAMPLES gl3))
                       (width rt1) (height rt1) gl3
           in (rt1, gl4)
         else (rt1, gl2))"

definition setupRenderBuffer :: "render_target \<Rightarrow> gl_context \<Rightarrow> render_target \<times> gl_context" where
  "setupRenderBuffer rt gl =
     (if antialias rt then
        let (rb, gl1) = createRenderbuffer gl;
            rt1 = rt\<lparr>priv_renderBuffer := Some rb\<rparr>;
            (fb, gl2) = createFramebuffer gl1;
            rt2 = rt1\<lparr>priv_renderFrameBuffer := Some fb\<rparr>;
            gl3 = bindRenderbuffer (priv_renderBuffer rt2) gl2;
            gl4 = renderbufferStorageMultisample (min (samples rt2) (MAX_SAMPLES gl3))
                    (width rt2) (height rt2) gl3;
            gl5 = bindFramebuffer (priv_renderFrameBuffer rt2) gl4;
            gl6 = framebufferRenderbuffer (priv_renderBuffer rt2) gl5
        in (rt2, gl6)
      else (rt, gl))"

definition setupFramebuffer :: "render_target \<Rightarrow> gl_context \<Rightarrow> render_target \<times> gl_context" where
  "setupFramebuffer rt gl =
     (let (t, gl1) = createTexture gl;
          rt1 = rt\<lparr>priv_frameTexture := Some t\<rparr>;
          gl2 = bindTexture (priv_frameTexture rt1) gl1;
          gl3 = texImage2D (width rt1) (height rt1) gl2;
          gl4 = texParameteri TEXTURE_MIN_FILTER NEAREST gl3;
          gl5 = texParameteri TEXTURE_MAG_FILTER NEAREST gl4;
          gl6 = texParameteri TEXTURE_WRAP_S CLAMP_TO_EDGE gl5;
          gl7 = texParameteri TEXTURE_WRAP_T CLAMP_TO_EDGE gl6;
          (fb, gl8) = createFramebuffer gl7;
          rt2 = rt1\<lparr>priv_frameBuffer := Some fb\<rparr>;
          gl9 = bindFramebuffer (priv_frameBuffer rt2) gl8;
          gl10 = framebufferTexture2D (priv_frameTexture rt2) gl9
      in (rt2, disable rt2 gl10))"

text \<open>The constructor. The field initialisers give \<^verbatim>\<open>antialias = false\<close> and
  \<^verbatim>\<open>samples = 0\<close>; the body then assigns both, \<^verbatim>\<open>??\<close> falling back to the
  initialised \<^verbatim>\<open>this.antialias\<close> and to \<^verbatim>\<open>gl.getParameter(gl.MAX_SAMPLES)\<close>.\<close>

definition new_RenderTarget :: "render_target_options \<Rightarrow> gl_context \<Rightarrow> render_target \<times> gl_context" where
  "new_RenderTarget options gl =
     (let rt0 = \<lparr>width = opt_width options, height = opt_height options,
                 antialias = (case opt_antialias options of Some a \<Rightarrow> a | None \<Rightarrow> False),
                 samples = (case opt_samples options of Some s \<Rightarrow> s | None \<Rightarrow> MAX_SAMPLES gl),
                 priv_renderBuffer = None, priv_renderFrameBuffer = None,
                 priv_frameBuffer = None, priv_frameTexture = None\<rparr>;
          (rt1, gl1) = setupRenderBuffer rt0 gl
      in setupFramebuffer rt1 gl1)"








section \<open>The entity-component-system core\<close>

text \<open>
  The documentation page src/site/docs/05-entity-component-system/05.3-systems.mdx describes
  systems, their two types and their priorities; the classes that implement entities,
  components, queries, the system registry and the scheduler are not among the sources. They
  are modelled here from the specification, section by section, each definition saying which
  sentence it follows. A component type identifier is a \<open>nat\<close>, a component's data an
  \<open>int\<close>.
\<close>

subsection \<open>Entities and components\<close>

text \<open>Modelled from the spec: the Entity class is missing. Section 3: an entity is an opaque
  identifier, a generation-tagged index; it owns no data.\<close>

datatype entity = Entity (slot: nat) (generation: nat)

text \<open>Modelled from the spec: the Component class is missing. Section 3: a plain data value
  tagged with exactly one type identifier.\<close>

record component =
  comp_type :: nat
  comp_data :: int

text \<open>Modelled from the spec: the error kinds of section 7.\<close>

datatype ecs_error =
  StaleEntity | ComponentNotFound | ComponentConflict | SystemInitFailure | HookFailure

text \<open>Modelled from the spec: the Query class is missing. Section 3: a query is identified by
  its signature, a set of component types, and owns the list of matching entities.\<close>

record query =
  signature :: "nat set"
  matches :: "entity list"

text \<open>Modelled from the spec: the Entity Registry, the Component Store and the Query Index
  of sections 4.1 to 4.3 are missing. The registry keeps, for every slot, its current
  generation and whether an entity lives in it, and the slots that were freed and can be
  used again; the store keeps for every slot the components attached, one per type; the index
  keeps the queries created so far. \<open>replace_on_add\<close> is the policy of section 4.1 and of
  the last design note: true replaces a component of the same type, false rejects it.\<close>

record ecs_store =
  slot_count :: nat
  slot_generation :: "nat \<Rightarrow> nat"
  slot_alive :: "nat \<Rightarrow> bool"
  free_slots :: "nat list"
  components :: "nat \<Rightarrow> (nat \<times> int) list"
  queries :: "query list"
  replace_on_add :: bool

text \<open>Modelled from the spec: a world that holds no entity and no query yet.\<close>

definition empty_store :: "bool \<Rightarrow> ecs_store" where
  "empty_store policy =
     \<lparr>slot_count = 0, slot_generation = (\<lambda>_. 0), slot_alive = (\<lambda>_. False), free_slots = [],
      components = (\<lambda>_. []), queries = [], replace_on_add = policy\<rparr>"

text \<open>Modelled from the spec: section 3, an identifier is valid only between its creation
  and its destruction. The handle must name a living slot in the slot's current
  generation.\<close>

definition is_live :: "ecs_store \<Rightarrow> entity \<Rightarrow> bool" where
  "is_live st e = (slot_alive st (slot e) \<and> slot_generation st (slot e) = generation e)"

text \<open>Modelled from the spec: section 2, the entity's current component-type set.\<close>

definition type_set :: "ecs_store \<Rightarrow> entity \<Rightarrow> nat set" where
  "type_set st e = fst ` set (components st (slot e))"

text \<open>Modelled from the spec: section 2, an entity matches a query when its component-type
  set is a superset of the requested set.\<close>

definition satisfies :: "ecs_store \<Rightarrow> entity \<Rightarrow> nat set \<Rightarrow> bool" where
  "satisfies st e sig = (is_live st e \<and> sig \<subseteq> type_set st e)"

text \<open>Modelled from the spec: section 4.1, one component instance per type per entity. Putting
  a component of a type that is present replaces it in place.\<close>

definition alist_put :: "nat \<Rightarrow> int \<Rightarrow> (nat \<times> int) list \<Rightarrow> (nat \<times> int) list" where
  "alist_put t v cs =
     (if t \<in> fst ` set cs then map (\<lambda>(k, x). if k = t then (k, v) else (k, x)) cs
      else cs @ [(t, v)])"

text \<open>Modelled from the spec: section 4.1, detaching the component of a type.\<close>

definition alist_delete :: "nat \<Rightarrow> (nat \<times> int) list \<Rightarrow> (nat \<times> int) list" where
  "alist_delete t cs = filter (\<lambda>(k, x). k \<noteq> t) cs"

subsection \<open>The query index\<close>

text \<open>Modelled from the spec: section 4.3, for one query the index re-checks only whether
  that one entity's full type set satisfies that one query's signature, and adds the entity
  to the result list or removes it from it.\<close>

definition recheck :: "ecs_store \<Rightarrow> entity \<Rightarrow> query \<Rightarrow> query" where
  "recheck st e q =
     (if satisfies st e (signature q)
      then (if e \<in> set (matches q) then q else q\<lparr>matches := matches q @ [e]\<rparr>)
      else q\<lparr>matches := removeAll e (matches q)\<rparr>)"

text \<open>Modelled from the spec: section 4.3, a structural change touches only the queries keyed
  by the changed type. The reverse index from a type to the queries that require it is given
  by what it holds: the queries whose signature contains the type. The per-entity count of
  satisfied queries that the section mentions is not kept.\<close>

definition component_changed :: "nat \<Rightarrow> entity \<Rightarrow> ecs_store \<Rightarrow> ecs_store" where
  "component_changed t e st =
     st\<lparr>queries := map (\<lambda>q. if t \<in> signature q then recheck st e q else q) (queries st)\<rparr>"

text \<open>Modelled from the spec: the glossary counts the creation and the destruction of an
  entity among the structural changes, and section 4.3 has the index react to a destroyed
  entity. No type changes then, and the entity has no component, so the queries concerned are
  those that no type keys: the ones with the empty signature.\<close>

definition entity_changed :: "entity \<Rightarrow> ecs_store \<Rightarrow> ecs_store" where
  "entity_changed e st =
     st\<lparr>queries := map (\<lambda>q. if signature q = {} then recheck st e q else q) (queries st)\<rparr>"

text \<open>Modelled from the spec: section 4.3, the one full scan of the existing entities that
  seeds a new query.\<close>

definition scan :: "ecs_store \<Rightarrow> nat set \<Rightarrow> entity list" where
  "scan st sig =
     filter (\<lambda>e. satisfies st e sig)
       (map (\<lambda>s. Entity s (slot_generation st s)) [0..<slot_count st])"

text \<open>Modelled from the spec: section 4.3, \<^verbatim>\<open>getOrCreate(signature)\<close> returns the shared
  query for that exact set of types and creates it only the first time.\<close>

definition getOrCreate :: "nat set \<Rightarrow> ecs_store \<Rightarrow> query \<times> ecs_store" where
  "getOrCreate sig st =
     (case find (\<lambda>q. signature q = sig) (queries st) of
        Some q \<Rightarrow> (q, st)
      | None \<Rightarrow>
          (let q = \<lparr>signature = sig, matches = scan st sig\<rparr>
           in (q, st\<lparr>queries := queries st @ [q]\<rparr>)))"

subsection \<open>Operations on entities and components\<close>

text \<open>Modelled from the spec: section 4.2, \<^verbatim>\<open>create()\<close> returns an identifier with a
  (slot, generation) pair not used before; a freed slot is taken again when there is one, in
  the generation that its destruction left.\<close>

definition create :: "ecs_store \<Rightarrow> entity \<times> ecs_store" where
  "create st =
     (case free_slots st of
        [] \<Rightarrow>
          (let s = slot_count st; e = Entity s (slot_generation st s)
           in (e, entity_changed e
                    (st\<lparr>slot_count := Suc s, slot_alive := (slot_alive st)(s := True)\<rparr>)))
      | s # rest \<Rightarrow>
          (let e = Entity s (slot_generation st s)
           in (e, entity_changed e
                    (st\<lparr>free_slots := rest, slot_alive := (slot_alive st)(s := True)\<rparr>))))"

text \<open>Modelled from the spec: section 4.1, \<^verbatim>\<open>add(entity, component)\<close> attaches the
  component under its type tag, replacing one of the same type (or, with the replace policy
  off, signalling \<open>ComponentConflict\<close>, section 7), and notifies the index. On a destroyed
  entity it signals \<open>StaleEntity\<close>.\<close>

definition add :: "entity \<Rightarrow> component \<Rightarrow> ecs_store \<Rightarrow> ecs_error + ecs_store" where
  "add e c st =
     (if \<not> is_live st e then Inl StaleEntity
      else if \<not> replace_on_add st \<and> comp_type c \<in> type_set st e then Inl ComponentConflict
      else Inr (component_changed (comp_type c) e
             (st\<lparr>components := (components st)
                (slot e := alist_put (comp_type c) (comp_data c) (components st (slot e)))\<rparr>)))"

text \<open>Modelled from the spec: section 4.1, \<^verbatim>\<open>remove(entity, type)\<close> detaches and returns
  the prior instance, or signals \<open>ComponentNotFound\<close>; it notifies the index. On a destroyed
  entity it signals \<open>StaleEntity\<close>.\<close>

definition remove_component :: "entity \<Rightarrow> nat \<Rightarrow> ecs_store \<Rightarrow> ecs_error + component \<times> ecs_store" where
  "remove_component e t st =
     (if \<not> is_live st e then Inl StaleEntity
      else case map_of (components st (slot e)) t of
        None \<Rightarrow> Inl ComponentNotFound
      | Some v \<Rightarrow>
          Inr (\<lparr>comp_type = t, comp_data = v\<rparr>,
               component_changed t e
                 (st\<lparr>components := (components st)
                    (slot e := alist_delete t (components st (slot e)))\<rparr>)))"

text \<open>Modelled from the spec: section 4.1, \<^verbatim>\<open>get(entity, type)\<close> returns the current
  instance or signals \<open>ComponentNotFound\<close>; on a destroyed entity \<open>StaleEntity\<close>.\<close>

definition get :: "entity \<Rightarrow> nat \<Rightarrow> ecs_store \<Rightarrow> ecs_error + component" where
  "get e t st =
     (if \<not> is_live st e then Inl StaleEntity
      else case map_of (components st (slot e)) t of
        None \<Rightarrow> Inl ComponentNotFound
      | Some v \<Rightarrow> Inr \<lparr>comp_type = t, comp_data = v\<rparr>)"

text \<open>Modelled from the spec: section 4.2, destroying an entity removes all of its components,
  one structural change per component, in the order in which the store holds them.\<close>

fun detach_all :: "entity \<Rightarrow> nat list \<Rightarrow> ecs_store \<Rightarrow> ecs_store" where
  "detach_all e [] st = st"
| "detach_all e (t # ts) st =
     detach_all e ts (case remove_component e t st of Inl err \<Rightarrow> st | Inr (c, st') \<Rightarrow> st')"

text \<open>Modelled from the spec: section 4.2, \<^verbatim>\<open>destroy(entity)\<close> removes the components and
  then invalidates the identifier: the slot is freed and its generation incremented. An
  identifier that is destroyed already, or unknown, signals \<open>StaleEntity\<close>.\<close>

definition destroy :: "entity \<Rightarrow> ecs_store \<Rightarrow> ecs_error + ecs_store" where
  "destroy e st =
     (if \<not> is_live st e then Inl StaleEntity
      else
        let st1 = detach_all e (map fst (components st (slot e))) st;
            st2 = st1\<lparr>slot_alive := (slot_alive st1)(slot e := False),
                      slot_generation := (slot_generation st1)(slot e := Suc (generation e)),
                      free_slots := slot e # free_slots st1\<rparr>
        in Inr (entity_changed e st2))"

text \<open>Modelled from the spec: section 6, the calls through which systems and the host change
  the world. An error is returned to the caller and leaves the world as it was (section 7).\<close>

datatype command =
  Create | Destroy entity | Add entity component | Remove entity nat | GetOrCreate "nat set"

text \<open>Modelled from the spec: one call of section 6, its result dropped.\<close>

fun exec :: "command \<Rightarrow> ecs_store \<Rightarrow> ecs_store" where
  "exec Create st = snd (create st)"
| "exec (Destroy e) st = (case destroy e st of Inl err \<Rightarrow> st | Inr st' \<Rightarrow> st')"
| "exec (Add e c) st = (case add e c st of Inl err \<Rightarrow> st | Inr st' \<Rightarrow> st')"
| "exec (Remove e t) st = (case remove_component e t st of Inl err \<Rightarrow> st | Inr (c, st') \<Rightarrow> st')"
| "exec (GetOrCreate sig) st = snd (getOrCreate sig st)"

text \<open>Modelled from the spec: calls made one after the other, each applied at once
  (section 4.4, step 4).\<close>

fun exec_all :: "command list \<Rightarrow> ecs_store \<Rightarrow> ecs_store" where
  "exec_all [] st = st"
| "exec_all (c # cs) st = exec_all cs (exec c st)"

subsection \<open>Systems, the registry and the scheduler\<close>

text \<open>The two system types of the documentation page (lines 33 to 37).\<close>

datatype phase = Update | Draw

text \<open>A priority is a \<^verbatim>\<open>number\<close>; the table \<^verbatim>\<open>SystemPriority\<close> of the documentation
  page (lines 24 to 30) uses both infinities, so the reals are extended by them. The order is
  that of \<^verbatim>\<open><\<close> on numbers.\<close>

datatype priority = NegInfinity | Finite real | PosInfinity

fun priority_less :: "priority \<Rightarrow> priority \<Rightarrow> bool" where
  "priority_less NegInfinity NegInfinity = False"
| "priority_less NegInfinity q = True"
| "priority_less (Finite a) (Finite b) = (a < b)"
| "priority_less (Finite a) PosInfinity = True"
| "priority_less p q = False"

text \<open>\<^verbatim>\<open>SystemPriority\<close>, as the documentation page gives it.\<close>

definition Highest :: priority where
  "Highest = NegInfinity"

definition Higher :: priority where
  "Higher = Finite (- 5)"

definition Average :: priority where
  "Average = Finite 0"


definition Lowest :: priority where
  "Lowest = PosInfinity"

text \<open>Modelled from the spec: section 3, the lifecycle states of a system. A system that is
  \<open>Constructed\<close> carries the number of failed attempts to initialize it; \<open>Skipped\<close> is
  the state of a system whose initialization failed beyond the retry bound (section 4.4).\<close>

datatype lifecycle = Constructed nat | Active | Skipped

text \<open>Modelled from the spec: section 4.4, the hooks the scheduler calls. The documentation
  page (lines 39 to 52) names the hook that closes the cycle \<^verbatim>\<open>preupdate\<close> again; the
  specification leaves its name open (section 9), and it is kept apart here.\<close>

datatype hook = Initialize | Preupdate | UpdateHook | Closing

text \<open>Modelled from the spec: section 7, what the scheduler records of a hook call: the
  system, its phase, the hook, and whether the hook completed.\<close>

record event =
  ev_system :: nat
  ev_phase :: phase
  ev_hook :: hook
  ev_ok :: bool

text \<open>Modelled from the spec: the System base class is missing. Section 4.4: a hook reads the
  world and issues structural changes through the calls of section 6, and it completes or
  fails. What a deterministic hook does is fixed by the world it starts in, so a hook is a
  function from that world to the calls it makes, in order, and to whether it completed;
  \<^verbatim>\<open>preupdate\<close> and the closing hook take \<^verbatim>\<open>elapsedMs\<close>, \<^verbatim>\<open>update\<close> takes
  \<^verbatim>\<open>delta\<close>.\<close>

type_synonym hook_body = "ecs_store \<Rightarrow> command list \<times> bool"

record system =
  on_initialize :: hook_body
  on_preupdate :: "real \<Rightarrow> hook_body"
  on_update :: "real \<Rightarrow> hook_body"
  on_closing :: "real \<Rightarrow> hook_body"

text \<open>Modelled from the spec: section 3, what the registry knows of a registered system: its
  phase, its priority, its place in the order of registration and its lifecycle state.\<close>

record registered =
  reg_system :: system
  reg_phase :: phase
  reg_priority :: priority
  reg_seq :: nat
  reg_state :: lifecycle

text \<open>Modelled from the spec: the System Registry of section 4.4 is missing: one ordered list
  per phase, the number the next registration gets, and the configurable bound on retries of
  \<^verbatim>\<open>initialize\<close>.\<close>

record registry =
  update_systems :: "registered list"
  draw_systems :: "registered list"
  next_seq :: nat
  init_retry_bound :: nat

text \<open>Modelled from the spec: section 3, priority ascending, ties broken by registration
  order, first registered first. The documentation page: lower number means higher priority
  which runs first.\<close>

definition runs_before :: "registered \<Rightarrow> registered \<Rightarrow> bool" where
  "runs_before a b =
     (priority_less (reg_priority a) (reg_priority b) \<or>
      (reg_priority a = reg_priority b \<and> reg_seq a < reg_seq b))"

text \<open>Modelled from the spec: section 4.4, sorted insertion into the ordered phase list.\<close>

fun insert_system :: "registered \<Rightarrow> registered list \<Rightarrow> registered list" where
  "insert_system s [] = [s]"
| "insert_system s (x # xs) = (if runs_before s x then s # x # xs else x # insert_system s xs)"

text \<open>Modelled from the spec: section 4.4, the full re-sort of a phase.\<close>

definition resort :: "registered list \<Rightarrow> registered list" where
  "resort xs = foldr insert_system xs []"


text \<open>Modelled from the spec: section 4.4, \<^verbatim>\<open>register(system, phase, priority)\<close> inserts the
  system into the ordered phase list. The number it returns identifies the registration.\<close>

definition register :: "system \<Rightarrow> phase \<Rightarrow> priority \<Rightarrow> registry \<Rightarrow> nat \<times> registry" where
  "register s ph p r =
     (let x = \<lparr>reg_system = s, reg_phase = ph, reg_priority = p, reg_seq = next_seq r,
               reg_state = Constructed 0\<rparr>;
          r1 = r\<lparr>next_seq := Suc (next_seq r)\<rparr>
      in (reg_seq x,
          case ph of
            Update \<Rightarrow> r1\<lparr>update_systems := insert_system x (update_systems r1)\<rparr>
          | Draw \<Rightarrow> r1\<lparr>draw_systems := insert_system x (draw_systems r1)\<rparr>))"

text \<open>Modelled from the spec: section 4.4, \<^verbatim>\<open>unregister(system)\<close> removes it.\<close>

definition unregister :: "nat \<Rightarrow> registry \<Rightarrow> registry" where
  "unregister i r =
     r\<lparr>update_systems := filter (\<lambda>x. reg_seq x \<noteq> i) (update_systems r),
       draw_systems := filter (\<lambda>x. reg_seq x \<noteq> i) (draw_systems r)\<rparr>"

text \<open>Modelled from the spec: section 4.4, a priority changed after registration re-sorts the
  phase that holds the system.\<close>

definition with_priority :: "nat \<Rightarrow> priority \<Rightarrow> registered list \<Rightarrow> registered list" where
  "with_priority i p xs =
     (if i \<in> reg_seq ` set xs
      then resort (map (\<lambda>x. if reg_seq x = i then x\<lparr>reg_priority := p\<rparr> else x) xs)
      else xs)"

text \<open>Modelled from the spec: section 6, priority mutation.\<close>

definition set_priority :: "nat \<Rightarrow> priority \<Rightarrow> registry \<Rightarrow> registry" where
  "set_priority i p r =
     r\<lparr>update_systems := with_priority i p (update_systems r),
       draw_systems := with_priority i p (draw_systems r)\<rparr>"

text \<open>Modelled from the spec: section 4.4, step 4: the structural changes a hook issues are
  applied at once; section 7: the outcome is recorded.\<close>

definition run_hook ::
  "registered \<Rightarrow> hook \<Rightarrow> hook_body \<Rightarrow> ecs_store \<Rightarrow> ecs_store \<times> event \<times> bool" where
  "run_hook x h body st =
     (let (cmds, ok) = body st
      in (exec_all cmds st,
          \<lparr>ev_system = reg_seq x, ev_phase = reg_phase x, ev_hook = h, ev_ok = ok\<rparr>, ok))"

text \<open>Modelled from the spec: section 4.4, step 2: for a system, \<^verbatim>\<open>preupdate\<close>, then
  \<^verbatim>\<open>update(delta)\<close>, then the closing hook; a hook that fails aborts the system's
  remaining hooks for the frame. Only a system that is \<open>Active\<close> runs.\<close>

definition run_system :: "real \<Rightarrow> real \<Rightarrow> registered \<Rightarrow> ecs_store \<Rightarrow> ecs_store \<times> event list" where
  "run_system elapsedMs delta x st =
     (if reg_state x \<noteq> Active then (st, [])
      else
        let (st1, e1, ok1) = run_hook x Preupdate (on_preupdate (reg_system x) elapsedMs) st
        in if \<not> ok1 then (st1, [e1])
           else
             let (st2, e2, ok2) = run_hook x UpdateHook (on_update (reg_system x) delta) st1
             in if \<not> ok2 then (st2, [e1, e2])
                else
                  let (st3, e3, ok3) = run_hook x Closing (on_closing (reg_system x) elapsedMs) st2
                  in (st3, [e1, e2, e3]))"

text \<open>Modelled from the spec: section 4.4, a phase runs its list in order; the scheduler
  proceeds to the next system whatever happened to the one before.\<close>

fun run_phase :: "real \<Rightarrow> real \<Rightarrow> registered list \<Rightarrow> ecs_store \<Rightarrow> ecs_store \<times> event list" where
  "run_phase elapsedMs delta [] st = (st, [])"
| "run_phase elapsedMs delta (x # xs) st =
     (let (st1, ev1) = run_system elapsedMs delta x st;
          (st2, ev2) = run_phase elapsedMs delta xs st1
      in (st2, ev1 @ ev2))"

text \<open>Modelled from the spec: section 4.4, step 1: the systems not initialized yet.\<close>

definition pending :: "registered \<Rightarrow> bool" where
  "pending x = (case reg_state x of Constructed k \<Rightarrow> True | Active \<Rightarrow> False | Skipped \<Rightarrow> False)"

text \<open>Modelled from the spec: section 4.4, failure semantics: a system whose
  \<^verbatim>\<open>initialize\<close> succeeds becomes \<open>Active\<close>; one that fails is retried next frame up to
  the bound, then skipped for good.\<close>

definition after_initialize :: "nat \<Rightarrow> lifecycle \<Rightarrow> bool \<Rightarrow> lifecycle" where
  "after_initialize bound s ok =
     (case s of
        Constructed k \<Rightarrow>
          (if ok then Active else if bound < Suc k then Skipped else Constructed (Suc k))
      | Active \<Rightarrow> Active
      | Skipped \<Rightarrow> Skipped)"

text \<open>Modelled from the spec: section 4.4, step 1: \<^verbatim>\<open>initialize\<close> is called for each
  system of the list, in the order of the list; the new states are collected.\<close>

fun initialize_all ::
  "nat \<Rightarrow> registered list \<Rightarrow> ecs_store \<Rightarrow> ecs_store \<times> (nat \<times> lifecycle) list \<times> event list" where
  "initialize_all bound [] st = (st, [], [])"
| "initialize_all bound (x # xs) st =
     (let (st1, e, ok) = run_hook x Initialize (on_initialize (reg_system x)) st;
          (st2, states, evs) = initialize_all bound xs st1
      in (st2, (reg_seq x, after_initialize bound (reg_state x) ok) # states, e # evs))"

text \<open>Modelled from the spec: the new lifecycle states written into a phase list.\<close>

definition apply_states :: "(nat \<times> lifecycle) list \<Rightarrow> registered list \<Rightarrow> registered list" where
  "apply_states states xs =
     map (\<lambda>x. case map_of states (reg_seq x) of None \<Rightarrow> x | Some s \<Rightarrow> x\<lparr>reg_state := s\<rparr>) xs"

text \<open>Modelled from the spec: section 4.4, step 1: the initialization pass takes the systems
  of both phases that are not initialized, in registration order, before any phase runs.\<close>

definition initialization_pass :: "registry \<Rightarrow> ecs_store \<Rightarrow> registry \<times> ecs_store \<times> event list" where
  "initialization_pass r st =
     (let todo = sort_key reg_seq (filter pending (update_systems r @ draw_systems r));
          (st1, states, evs) = initialize_all (init_retry_bound r) todo st
      in (r\<lparr>update_systems := apply_states states (update_systems r),
            draw_systems := apply_states states (draw_systems r)\<rparr>, st1, evs))"

text \<open>Modelled from the spec: section 2, the World is the composition root: it owns the
  Entity Registry, the Component Store and the Query Index (the store) and the System
  Registry.\<close>

record world =
  store :: ecs_store
  systems :: registry

text \<open>Modelled from the spec: a new world, with its add policy and its retry bound.\<close>

definition new_world :: "bool \<Rightarrow> nat \<Rightarrow> world" where
  "new_world policy bound =
     \<lparr>store = empty_store policy,
      systems = \<lparr>update_systems = [], draw_systems = [], next_seq = 0, init_retry_bound = bound\<rparr>\<rparr>"

text \<open>Modelled from the spec: section 4.4, the per-frame execution \<^verbatim>\<open>tick(elapsedMs, delta)\<close>:
  the initialization pass, then the \<open>Update\<close> phase list, then the \<open>Draw\<close> phase list,
  both as they stand at the start of the frame. It returns the hook calls it made, in
  order.\<close>

definition tick :: "real \<Rightarrow> real \<Rightarrow> world \<Rightarrow> world \<times> event list" where
  "tick elapsedMs delta w =
     (let (r1, st1, ev0) = initialization_pass (systems w) (store w);
          (st2, ev1) = run_phase elapsedMs delta (update_systems r1) st1;
          (st3, ev2) = run_phase elapsedMs delta (draw_systems r1) st2
      in (\<lparr>store = st3, systems = r1\<rparr>, ev0 @ ev1 @ ev2))"

text \<open>Modelled from the spec: section 6, what the hosting application can do to a world.\<close>

datatype host_op =
  Command command
| Register system phase priority
| Unregister nat
| SetPriority nat priority
| Tick real real

text \<open>Modelled from the spec: one operation of the host.\<close>

fun apply_host :: "host_op \<Rightarrow> world \<Rightarrow> world" where
  "apply_host (Command c) w = w\<lparr>store := exec c (store w)\<rparr>"
| "apply_host (Register s ph p) w = w\<lparr>systems := snd (register s ph p (systems w))\<rparr>"
| "apply_host (Unregister i) w = w\<lparr>systems := unregister i (systems w)\<rparr>"
| "apply_host (SetPriority i p) w = w\<lparr>systems := set_priority i p (systems w)\<rparr>"
| "apply_host (Tick elapsedMs delta) w = fst (tick elapsedMs delta w)"

text \<open>Modelled from the spec: a history of the world, the host's operations in order.\<close>

fun run_host :: "host_op list \<Rightarrow> world \<Rightarrow> world" where
  "run_host [] w = w"
| "run_host (x # xs) w = run_host xs (apply_host x w)"


subsection \<open>Invariants\<close>

text \<open>Modelled from the spec: section 3, the invariant of the store. A living slot has been
  allocated; a dead slot holds no component; the free slots are allocated, dead and listed
  once; and every query lists exactly the entities that satisfy its signature.\<close>

definition store_inv :: "ecs_store \<Rightarrow> bool" where
  "store_inv st =
     ((\<forall>s. slot_alive st s \<longrightarrow> s < slot_count st) \<and>
      (\<forall>s. \<not> slot_alive st s \<longrightarrow> components st s = []) \<and>
      (\<forall>s \<in> set (free_slots st). s < slot_count st \<and> \<not> slot_alive st s) \<and>
      distinct (free_slots st) \<and>
      (\<forall>q \<in> set (queries st). \<forall>e. (e \<in> set (matches q)) = satisfies st e (signature q)))"

text \<open>Modelled from the spec: section 4.2, an identifier whose slot has moved on to a later
  generation.\<close>

definition retired :: "ecs_store \<Rightarrow> entity \<Rightarrow> bool" where
  "retired st e = (generation e < slot_generation st (slot e))"


section \<open>Concrete inputs\<close>

subsection \<open>A context and options to run the class on\<close>

definition initial_context :: gl_context where
  "initial_context =
     \<lparr>MAX_SAMPLES = 4, next_name = 1, FRAMEBUFFER_BINDING = None, TEXTURE_BINDING_2D = None,
      RENDERBUFFER_BINDING = None, VIEWPORT = (0, 0, 300, 150), texture_image = (\<lambda>_. None),
      texture_param = (\<lambda>_ _. None), renderbuffer_storage = (\<lambda>_. None),
      color_attachment0 = (\<lambda>_. None)\<rparr>"

definition default_options :: render_target_options where
  "default_options = \<lparr>opt_width = 800, opt_height = 600, opt_antialias = None, opt_samples = None\<rparr>"


subsection \<open>Worlds to run the entity-component-system core on\<close>

text \<open>The component types of the specification's scenario (section 8).\<close>

definition Position :: nat where
  "Position = 0"

definition Velocity :: nat where
  "Velocity = 1"


text \<open>A system that, on every update, gives a velocity to each entity that has a position.\<close>

definition mover_system :: system where
  "mover_system =
     \<lparr>on_initialize = (\<lambda>st. ([], True)), on_preupdate = (\<lambda>elapsedMs st. ([], True)),
      on_update = (\<lambda>delta st.
        (map (\<lambda>e. Add e \<lparr>comp_type = Velocity, comp_data = 0\<rparr>) (scan st {Position}), True)),
      on_closing = (\<lambda>elapsedMs st. ([], True))\<rparr>"

text \<open>Two entities, the first with a position and a velocity, the second with a position
  only; a query for both types; then the mover is registered and one frame runs.\<close>

definition example_world :: world where
  "example_world =
     run_host
       [Command Create,
        Command (Add (Entity 0 0) \<lparr>comp_type = Position, comp_data = 10\<rparr>),
        Command (Add (Entity 0 0) \<lparr>comp_type = Velocity, comp_data = 3\<rparr>),
        Command (GetOrCreate {Position, Velocity}),
        Command Create,
        Command (Add (Entity 1 0) \<lparr>comp_type = Position, comp_data = 7\<rparr>),
        Register mover_system Update Average,
        Tick 16 16]
       (new_world True 3)"

text \<open>The store of that world once its first entity has been destroyed.\<close>

definition gone_store :: ecs_store where
  "gone_store = projr (destroy (Entity 0 0) (store example_world))"


section \<open>Properties of RenderTarget\<close>

text \<open>
  C8. \<^verbatim>\<open>setResolution(w, h)\<close> sets the \<^verbatim>\<open>width\<close> field to \<open>w\<close> and the
  \<^verbatim>\<open>height\<close> field to \<open>h\<close>, and leaves \<^verbatim>\<open>antialias\<close> and \<^verbatim>\<open>samples\<close>
  as they were, for every target, context, width and height.
\<close>

theorem setResolution_fields:
  "width (fst (setResolution w h rt gl)) = w \<and>
   height (fst (setResolution w h rt gl)) = h \<and>
   antialias (fst (setResolution w h rt gl)) = antialias rt \<and>
   samples (fst (setResolution w h rt gl)) = samples rt"
  by (simp add: setResolution_def Let_def)


subsection \<open>The constructor\<close>

lemma setupRenderBuffer_fields:
  "width (fst (setupRenderBuffer rt gl)) = width rt"
  "height (fst (setupRenderBuffer rt gl)) = height rt"
  "antialias (fst (setupRenderBuffer rt gl)) = antialias rt"
  "samples (fst (setupRenderBuffer rt gl)) = samples rt"
  by (simp_all add: setupRenderBuffer_def Let_def split_def)


lemma setupFramebuffer_fields:
  "width (fst (setupFramebuffer rt gl)) = width rt"
  "height (fst (setupFramebuffer rt gl)) = height rt"
  "antialias (fst (setupFramebuffer rt gl)) = antialias rt"
  "samples (fst (setupFramebuffer rt gl)) = samples rt"
  "priv_renderBuffer (fst (setupFramebuffer rt gl)) = priv_renderBuffer rt"
  "priv_renderFrameBuffer (fst (setupFramebuffer rt gl)) = priv_renderFrameBuffer rt"
  by (simp_all add: setupFramebuffer_def Let_def split_def)

lemma setupFramebuffer_bindings:
  "FRAMEBUFFER_BINDING (snd (setupFramebuffer rt gl)) = None"
  "TEXTURE_BINDING_2D (snd (setupFramebuffer rt gl)) = None"
  by (simp_all add: setupFramebuffer_def Let_def split_def disable_def bindTexture_def
      bindFramebuffer_def)

lemma new_RenderTarget_unfold:
  "new_RenderTarget options gl =
     setupFramebuffer
       (fst (setupRenderBuffer
          \<lparr>width = opt_width options, height = opt_height options,
           antialias = (case opt_antialias options of Some a \<Rightarrow> a | None \<Rightarrow> False),
           samples = (case opt_samples options of Some s \<Rightarrow> s | None \<Rightarrow> MAX_SAMPLES gl),
           priv_renderBuffer = None, priv_renderFrameBuffer = None,
           priv_frameBuffer = None, priv_frameTexture = None\<rparr> gl))
       (snd (setupRenderBuffer
          \<lparr>width = opt_width options, height = opt_height options,
           antialias = (case opt_antialias options of Some a \<Rightarrow> a | None \<Rightarrow> False),
           samples = (case opt_samples options of Some s \<Rightarrow> s | None \<Rightarrow> MAX_SAMPLES gl),
           priv_renderBuffer = None, priv_renderFrameBuffer = None,
           priv_frameBuffer = None, priv_frameTexture = None\<rparr> gl))"
  by (simp add: new_RenderTarget_def Let_def split_def)

text \<open>
  C9. When the constructor has run, the framebuffer binding and the 2D texture binding are
  both null, so drawing is not left redirected to the new target. An omitted
  \<^verbatim>\<open>antialias\<close> option gives \<^verbatim>\<open>antialias = false\<close>, and an omitted
  \<^verbatim>\<open>samples\<close> option gives the context's \<^verbatim>\<open>MAX_SAMPLES\<close>, whatever
  \<^verbatim>\<open>antialias\<close> is.
\<close>

theorem constructor_postcondition:
  "FRAMEBUFFER_BINDING (snd (new_RenderTarget options gl)) = None \<and>
   TEXTURE_BINDING_2D (snd (new_RenderTarget options gl)) = None \<and>
   (opt_antialias options = None \<longrightarrow> antialias (fst (new_RenderTarget options gl)) = False) \<and>
   (opt_samples options = None \<longrightarrow> samples (fst (new_RenderTarget options gl)) = MAX_SAMPLES gl)"
  by (simp add: new_RenderTarget_unfold setupFramebuffer_bindings setupFramebuffer_fields
      setupRenderBuffer_fields)

lemma constructor_defaults_example:
  "antialias (fst (new_RenderTarget default_options initial_context)) = False"
  by (simp add: new_RenderTarget_unfold setupFramebuffer_fields setupRenderBuffer_fields
      default_options_def)

subsection \<open>The multisample resources\<close>

lemmas gl_defs = createRenderbuffer_def createFramebuffer_def createTexture_def bindRenderbuffer_def
  bindFramebuffer_def bindTexture_def renderbufferStorageMultisample_def texImage2D_def
  texParameteri_def framebufferRenderbuffer_def framebufferTexture2D_def viewport_def
























theorem constructor_postcondition_witness:
  "opt_antialias default_options = None \<and> opt_samples default_options = None \<and>
   FRAMEBUFFER_BINDING (snd (new_RenderTarget default_options initial_context)) = None \<and>
   TEXTURE_BINDING_2D (snd (new_RenderTarget default_options initial_context)) = None \<and>
   antialias (fst (new_RenderTarget default_options initial_context)) = False \<and>
   samples (fst (new_RenderTarget default_options initial_context)) = 4"
  using constructor_postcondition [of default_options initial_context]
  by (simp add: default_options_def initial_context_def)

subsection \<open>What the constructor and a resize leave in the context\<close>

text \<open>The two framebuffers that \<^verbatim>\<open>use()\<close> chooses between: the texture framebuffer has
  the frame texture as its colour attachment, sized as the target; the render framebuffer
  has the multisample renderbuffer, with at most \<^verbatim>\<open>MAX_SAMPLES\<close> samples. A resize
  gives both the new size.\<close>

lemma new_RenderTarget_texture_framebuffer:
  "case new_RenderTarget options gl of (rt, gl') \<Rightarrow>
     (\<exists>t fb. frameTexture rt = Some t \<and> frameBuffer rt = Some fb \<and>
        color_attachment0 gl' fb = Some (Texture2D t) \<and>
        texture_image gl' t = Some (width rt, height rt))"
  by (simp add: new_RenderTarget_def setupRenderBuffer_def setupFramebuffer_def disable_def
      frameTexture_def frameBuffer_def Let_def split_def gl_defs)

lemma new_RenderTarget_render_framebuffer:
  "case new_RenderTarget options gl of (rt, gl') \<Rightarrow>
     antialias rt \<longrightarrow>
     (\<exists>rb fb. renderBuffer rt = Some rb \<and> renderFrameBuffer rt = Some fb \<and>
        color_attachment0 gl' fb = Some (Renderbuffer rb) \<and>
        renderbuffer_storage gl' rb =
          Some (min (samples rt) (MAX_SAMPLES gl), width rt, height rt))"
  by (simp add: new_RenderTarget_def setupRenderBuffer_def setupFramebuffer_def disable_def
      renderBuffer_def renderFrameBuffer_def Let_def split_def gl_defs)

lemma setResolution_resizes:
  "case setResolution w h rt gl of (rt', gl') \<Rightarrow>
     (\<forall>t. frameTexture rt = Some t \<longrightarrow> texture_image gl' t = Some (w, h)) \<and>
     (\<forall>rb. renderBuffer rt = Some rb \<longrightarrow>
        renderbuffer_storage gl' rb = Some (min (samples rt) (MAX_SAMPLES gl), w, h))"
  by (auto simp: setResolution_def frameTexture_def renderBuffer_def Let_def gl_defs
      split: option.split)

section \<open>Properties of the entity-component-system core\<close>

subsection \<open>The store keeps its invariant\<close>

lemma map_fst_replace:
  "map fst (map (\<lambda>(k, x). if k = t then (k, v) else (k, x)) cs) = map fst cs"
  by (induction cs) auto

lemma fst_set_alist_put: "fst ` set (alist_put t v cs) = insert t (fst ` set cs)"
proof (cases "t \<in> fst ` set cs")
  case True
  have "fst ` set (alist_put t v cs) =
      set (map fst (map (\<lambda>(k, x). if k = t then (k, v) else (k, x)) cs))"
    using True by (simp add: alist_put_def del: map_map)
  also have "\<dots> = fst ` set cs"
    by (simp only: map_fst_replace set_map)
  finally show ?thesis
    using True by auto
next
  case False
  then show ?thesis
    by (simp add: alist_put_def)
qed

lemma fst_set_alist_delete: "fst ` set (alist_delete t cs) = fst ` set cs - {t}"
  by (induction cs) (auto simp: alist_delete_def)

lemma signature_recheck: "signature (recheck st e q) = signature q"
  by (simp add: recheck_def)

lemma matches_recheck:
  "(e' \<in> set (matches (recheck st e q))) =
     (if e' = e then satisfies st e (signature q) else e' \<in> set (matches q))"
  by (auto simp: recheck_def)

lemma component_changed_fields:
  "slot_count (component_changed t e st) = slot_count st"
  "slot_generation (component_changed t e st) = slot_generation st"
  "slot_alive (component_changed t e st) = slot_alive st"
  "free_slots (component_changed t e st) = free_slots st"
  "components (component_changed t e st) = components st"
  "replace_on_add (component_changed t e st) = replace_on_add st"
  by (simp_all add: component_changed_def)

lemma entity_changed_fields:
  "slot_count (entity_changed e st) = slot_count st"
  "slot_generation (entity_changed e st) = slot_generation st"
  "slot_alive (entity_changed e st) = slot_alive st"
  "free_slots (entity_changed e st) = free_slots st"
  "components (entity_changed e st) = components st"
  "replace_on_add (entity_changed e st) = replace_on_add st"
  by (simp_all add: entity_changed_def)

lemma satisfies_cong:
  "slot_alive st' = slot_alive st \<Longrightarrow> slot_generation st' = slot_generation st \<Longrightarrow>
   components st' = components st \<Longrightarrow> satisfies st' e sig = satisfies st e sig"
  by (simp add: satisfies_def is_live_def type_set_def)

text \<open>The general step: the entity's record changes at one slot, the index is told the type.\<close>

lemma store_inv_component_changed:
  assumes inv: "store_inv st" and live: "is_live st e"
    and st': "st' = st\<lparr>components := (components st)(slot e := cs)\<rparr>"
    and cs: "fst ` set cs = insert t (fst ` set (components st (slot e))) \<or>
             fst ` set cs = fst ` set (components st (slot e)) - {t}"
  shows "store_inv (component_changed t e st')"
proof -
  have other: "satisfies st' e' sig = satisfies st e' sig" if "e' \<noteq> e" for e' sig
  proof (cases "slot e' = slot e")
    case True
    with that have "generation e' \<noteq> generation e"
      by (cases e'; cases e) auto
    with True live show ?thesis
      by (simp add: satisfies_def is_live_def st')
  next
    case False
    then show ?thesis
      by (simp add: satisfies_def is_live_def type_set_def st')
  qed
  have untouched: "satisfies st' e sig = satisfies st e sig" if "t \<notin> sig" for sig
    using cs that by (auto simp: satisfies_def is_live_def type_set_def st')
  have q: "(e' \<in> set (matches q')) = satisfies (component_changed t e st') e' (signature q')"
    if "q' \<in> set (queries (component_changed t e st'))" for q' e'
  proof -
    from that have "q' \<in> (\<lambda>q. if t \<in> signature q then recheck st' e q else q) ` set (queries st)"
      by (simp add: component_changed_def st')
    then obtain q where qin: "q \<in> set (queries st)"
      and q': "q' = (if t \<in> signature q then recheck st' e q else q)"
      by blast
    from inv qin have old: "(e' \<in> set (matches q)) = satisfies st e' (signature q)"
      by (simp add: store_inv_def)
    have same: "satisfies (component_changed t e st') e' sig = satisfies st' e' sig" for sig
      by (rule satisfies_cong) (simp_all add: component_changed_fields)
    show ?thesis
    proof (cases "t \<in> signature q")
      case True
      then show ?thesis
        using old other [of e' "signature q"]
        by (simp add: q' same signature_recheck matches_recheck)
    next
      case False
      then show ?thesis
        using old other [of e' "signature q"] untouched [of "signature q"]
          same [of "signature q"]
        by (cases "e' = e") (simp_all add: q')
    qed
  qed
  have a: "slot_alive (component_changed t e st') s \<longrightarrow> s < slot_count (component_changed t e st')" for s
    using inv by (simp add: component_changed_fields st' store_inv_def)
  have b: "\<not> slot_alive (component_changed t e st') s \<longrightarrow> components (component_changed t e st') s = []" for s
    using inv live by (auto simp: component_changed_fields st' store_inv_def is_live_def)
  have c: "\<forall>s \<in> set (free_slots (component_changed t e st')).
      s < slot_count (component_changed t e st') \<and> \<not> slot_alive (component_changed t e st') s"
    using inv by (simp add: component_changed_fields st' store_inv_def)
  have d: "distinct (free_slots (component_changed t e st'))"
    using inv by (simp add: component_changed_fields st' store_inv_def)
  from a b c d q show ?thesis
    unfolding store_inv_def by blast
qed

lemma store_inv_add:
  assumes "store_inv st" and "add e c st = Inr st'"
  shows "store_inv st'"
proof -
  from assms(2) have live: "is_live st e"
    and st': "st' = component_changed (comp_type c) e
        (st\<lparr>components := (components st)
           (slot e := alist_put (comp_type c) (comp_data c) (components st (slot e)))\<rparr>)"
    by (auto simp: add_def split: if_splits)
  show ?thesis
    unfolding st'
    by (rule store_inv_component_changed [OF assms(1) live refl])
       (simp add: fst_set_alist_put)
qed

lemma store_inv_remove_component:
  assumes "store_inv st" and "remove_component e t st = Inr (c, st')"
  shows "store_inv st'"
proof -
  from assms(2) have live: "is_live st e"
    and st': "st' = component_changed t e
        (st\<lparr>components := (components st)
           (slot e := alist_delete t (components st (slot e)))\<rparr>)"
    by (auto simp: remove_component_def split: if_splits option.splits)
  show ?thesis
    unfolding st'
    by (rule store_inv_component_changed [OF assms(1) live refl])
       (simp add: fst_set_alist_delete)
qed

lemma store_inv_entity_changed:
  assumes inv: "\<forall>q \<in> set (queries st). \<forall>e'. (e' \<in> set (matches q)) = satisfies st e' (signature q)"
    and qs: "queries st' = queries st"
    and other: "\<And>e' sig. e' \<noteq> e \<Longrightarrow> satisfies st' e' sig = satisfies st e' sig"
    and nonempty: "\<And>sig. sig \<noteq> {} \<Longrightarrow> satisfies st' e sig = satisfies st e sig"
    and a: "\<forall>s. slot_alive st' s \<longrightarrow> s < slot_count st'"
    and b: "\<forall>s. \<not> slot_alive st' s \<longrightarrow> components st' s = []"
    and c: "\<forall>s \<in> set (free_slots st'). s < slot_count st' \<and> \<not> slot_alive st' s"
    and d: "distinct (free_slots st')"
  shows "store_inv (entity_changed e st')"
proof -
  have q: "(e' \<in> set (matches q')) = satisfies (entity_changed e st') e' (signature q')"
    if "q' \<in> set (queries (entity_changed e st'))" for q' e'
  proof -
    from that have "q' \<in> (\<lambda>q. if signature q = {} then recheck st' e q else q) ` set (queries st)"
      by (simp add: entity_changed_def qs)
    then obtain q where qin: "q \<in> set (queries st)"
      and q': "q' = (if signature q = {} then recheck st' e q else q)"
      by blast
    from inv qin have old: "(e' \<in> set (matches q)) = satisfies st e' (signature q)"
      by simp
    have same: "satisfies (entity_changed e st') e' sig = satisfies st' e' sig" for sig
      by (rule satisfies_cong) (simp_all add: entity_changed_fields)
    show ?thesis
    proof (cases "signature q = {}")
      case True
      then show ?thesis
        using old other [of e' "signature q"]
        by (simp add: q' same signature_recheck matches_recheck)
    next
      case False
      then show ?thesis
        using old other [of e' "signature q"] nonempty [of "signature q"]
          same [of "signature q"]
        by (cases "e' = e") (simp_all add: q')
    qed
  qed
  from a b c d q show ?thesis
    unfolding store_inv_def by (simp add: entity_changed_fields)
qed

lemma store_inv_create:
  assumes inv: "store_inv st"
  shows "store_inv (snd (create st))"
proof (cases "free_slots st")
  case Nil
  let ?s = "slot_count st"
  let ?e = "Entity ?s (slot_generation st ?s)"
  let ?st' = "st\<lparr>slot_count := Suc ?s, slot_alive := (slot_alive st)(?s := True)\<rparr>"
  from inv have dead: "\<not> slot_alive st ?s" and none: "components st ?s = []"
    by (auto simp: store_inv_def)
  have "store_inv (entity_changed ?e ?st')"
  proof (rule store_inv_entity_changed [where st = st])
    show "\<forall>q \<in> set (queries st). \<forall>e'. (e' \<in> set (matches q)) = satisfies st e' (signature q)"
      using inv by (simp add: store_inv_def)
    show "satisfies ?st' e' sig = satisfies st e' sig" if "e' \<noteq> ?e" for e' sig
      using that dead by (cases e') (auto simp: satisfies_def is_live_def type_set_def)
    show "satisfies ?st' ?e sig = satisfies st ?e sig" if "sig \<noteq> {}" for sig
      using that dead none by (auto simp: satisfies_def is_live_def type_set_def)
    show "\<forall>s. slot_alive ?st' s \<longrightarrow> s < slot_count ?st'"
      using inv by (auto simp: store_inv_def less_Suc_eq)
    show "\<forall>s. \<not> slot_alive ?st' s \<longrightarrow> components ?st' s = []"
      using inv by (auto simp: store_inv_def)
    show "\<forall>s \<in> set (free_slots ?st'). s < slot_count ?st' \<and> \<not> slot_alive ?st' s"
      using Nil by simp
    show "distinct (free_slots ?st')"
      using Nil by simp
  qed simp
  with Nil show ?thesis
    by (simp add: create_def Let_def)
next
  case (Cons s rest)
  let ?e = "Entity s (slot_generation st s)"
  let ?st' = "st\<lparr>free_slots := rest, slot_alive := (slot_alive st)(s := True)\<rparr>"
  from inv Cons have dead: "\<not> slot_alive st s" and none: "components st s = []"
    and lt: "s < slot_count st" and fresh: "s \<notin> set rest" and dist: "distinct rest"
    and rest: "\<forall>x \<in> set rest. x < slot_count st \<and> \<not> slot_alive st x"
    by (auto simp: store_inv_def)
  have "store_inv (entity_changed ?e ?st')"
  proof (rule store_inv_entity_changed [where st = st])
    show "\<forall>q \<in> set (queries st). \<forall>e'. (e' \<in> set (matches q)) = satisfies st e' (signature q)"
      using inv by (simp add: store_inv_def)
    show "satisfies ?st' e' sig = satisfies st e' sig" if "e' \<noteq> ?e" for e' sig
      using that dead by (cases e') (auto simp: satisfies_def is_live_def type_set_def)
    show "satisfies ?st' ?e sig = satisfies st ?e sig" if "sig \<noteq> {}" for sig
      using that dead none by (auto simp: satisfies_def is_live_def type_set_def)
    show "\<forall>s'. slot_alive ?st' s' \<longrightarrow> s' < slot_count ?st'"
      using inv lt by (auto simp: store_inv_def)
    show "\<forall>s'. \<not> slot_alive ?st' s' \<longrightarrow> components ?st' s' = []"
      using inv by (auto simp: store_inv_def)
    show "\<forall>x \<in> set (free_slots ?st'). x < slot_count ?st' \<and> \<not> slot_alive ?st' x"
      using rest fresh by auto
    show "distinct (free_slots ?st')"
      using dist by simp
  qed simp
  with Cons show ?thesis
    by (simp add: create_def Let_def)
qed

lemma remove_component_Inr:
  assumes "remove_component e t st = Inr (c, st')"
  shows "is_live st' e" and "slot_alive st' = slot_alive st"
    and "slot_generation st' = slot_generation st"
    and "components st' (slot e) = alist_delete t (components st (slot e))"
  using assms
  by (auto simp: remove_component_def is_live_def component_changed_fields split: if_splits option.splits)

lemma remove_component_Inl_live:
  assumes "remove_component e t st = Inl err" and "is_live st e"
  shows "alist_delete t (components st (slot e)) = components st (slot e)"
proof -
  from assms have "map_of (components st (slot e)) t = None"
    by (auto simp: remove_component_def split: if_splits option.splits)
  then have "t \<notin> fst ` set (components st (slot e))"
    by (simp add: map_of_eq_None_iff)
  then show ?thesis
    by (force simp: alist_delete_def filter_id_conv)
qed

lemma detach_all_inv:
  "store_inv st \<Longrightarrow> is_live st e \<Longrightarrow>
   store_inv (detach_all e ts st) \<and> is_live (detach_all e ts st) e \<and>
   components (detach_all e ts st) (slot e) =
     filter (\<lambda>(k, x). k \<notin> set ts) (components st (slot e))"
proof (induction ts arbitrary: st)
  case Nil
  then show ?case by simp
next
  case (Cons t ts)
  show ?case
  proof (cases "remove_component e t st")
    case (Inl err)
    from remove_component_Inl_live [OF Inl Cons.prems(2)]
    have "filter (\<lambda>(k, x). k \<noteq> t) (components st (slot e)) = components st (slot e)"
      by (simp add: alist_delete_def)
    then have "filter (\<lambda>(k, x). k \<notin> set (t # ts)) (components st (slot e)) =
        filter (\<lambda>(k, x). k \<notin> set ts) (components st (slot e))"
      by (auto simp: filter_id_conv intro!: filter_cong)
    with Cons.IH [OF Cons.prems] Inl show ?thesis
      by simp
  next
    case (Inr r)
    obtain c st' where r: "r = (c, st')"
      by (cases r)
    from Inr r have rem: "remove_component e t st = Inr (c, st')"
      by simp
    have "filter (\<lambda>(k, x). k \<notin> set ts) (alist_delete t (components st (slot e))) =
        filter (\<lambda>(k, x). k \<notin> set (t # ts)) (components st (slot e))"
      by (auto simp: alist_delete_def intro!: filter_cong)
    with Cons.IH [OF store_inv_remove_component [OF Cons.prems(1) rem] remove_component_Inr(1) [OF rem]]
      remove_component_Inr(4) [OF rem] rem
    show ?thesis
      by simp
  qed
qed

lemma store_inv_destroy:
  assumes inv: "store_inv st" and des: "destroy e st = Inr st'"
  shows "store_inv st'"
proof -
  let ?st1 = "detach_all e (map fst (components st (slot e))) st"
  let ?st2 = "?st1\<lparr>slot_alive := (slot_alive ?st1)(slot e := False),
      slot_generation := (slot_generation ?st1)(slot e := Suc (generation e)),
      free_slots := slot e # free_slots ?st1\<rparr>"
  from des have live: "is_live st e" and st': "st' = entity_changed e ?st2"
    by (auto simp: destroy_def Let_def split: if_splits)
  from detach_all_inv [OF inv live, of "map fst (components st (slot e))"]
  have inv1: "store_inv ?st1" and live1: "is_live ?st1 e"
    and "components ?st1 (slot e) =
      filter (\<lambda>(k, x). k \<notin> set (map fst (components st (slot e)))) (components st (slot e))"
    by simp_all
  moreover have "filter (\<lambda>(k, x). k \<notin> set (map fst cs)) cs = []" for cs :: "(nat \<times> int) list"
    by (force simp: filter_empty_conv)
  ultimately have none: "components ?st1 (slot e) = []"
    by simp
  have "store_inv (entity_changed e ?st2)"
  proof (rule store_inv_entity_changed [where st = ?st1])
    show "\<forall>q \<in> set (queries ?st1). \<forall>e'. (e' \<in> set (matches q)) = satisfies ?st1 e' (signature q)"
      using inv1 by (simp add: store_inv_def)
    show "satisfies ?st2 e' sig = satisfies ?st1 e' sig" if "e' \<noteq> e" for e' sig
      using that live1 by (cases e'; cases e) (auto simp: satisfies_def is_live_def type_set_def)
    show "satisfies ?st2 e sig = satisfies ?st1 e sig" if "sig \<noteq> {}" for sig
      using that none by (auto simp: satisfies_def is_live_def type_set_def)
    show "\<forall>s. slot_alive ?st2 s \<longrightarrow> s < slot_count ?st2"
      using inv1 by (auto simp: store_inv_def)
    show "\<forall>s. \<not> slot_alive ?st2 s \<longrightarrow> components ?st2 s = []"
      using inv1 none by (auto simp: store_inv_def)
    show "\<forall>s \<in> set (free_slots ?st2). s < slot_count ?st2 \<and> \<not> slot_alive ?st2 s"
      using inv1 live1 by (auto simp: store_inv_def is_live_def)
    show "distinct (free_slots ?st2)"
      using inv1 live1 by (auto simp: store_inv_def is_live_def)
  qed simp
  then show ?thesis
    by (simp add: st')
qed

lemma set_scan: "store_inv st \<Longrightarrow> (e \<in> set (scan st sig)) = satisfies st e sig"
proof -
  assume inv: "store_inv st"
  have "satisfies st e sig \<Longrightarrow> e \<in> (\<lambda>s. Entity s (slot_generation st s)) ` {0..<slot_count st}"
  proof -
    assume "satisfies st e sig"
    then have live: "is_live st e"
      by (simp add: satisfies_def)
    with inv have "slot e < slot_count st"
      by (simp add: store_inv_def is_live_def)
    moreover from live have "e = Entity (slot e) (slot_generation st (slot e))"
      by (cases e) (simp add: is_live_def)
    ultimately show ?thesis
      by (metis atLeastLessThan_iff image_eqI zero_le)
  qed
  then show ?thesis
    by (auto simp: scan_def)
qed

lemma store_inv_getOrCreate:
  assumes inv: "store_inv st"
  shows "store_inv (snd (getOrCreate sig st))"
proof (cases "find (\<lambda>q. signature q = sig) (queries st)")
  case None
  have "satisfies (st\<lparr>queries := qs\<rparr>) e s = satisfies st e s" for qs e s
    by (rule satisfies_cong) simp_all
  with inv None set_scan [OF inv] show ?thesis
    by (auto simp: getOrCreate_def Let_def store_inv_def)
next
  case (Some q)
  with inv show ?thesis
    by (simp add: getOrCreate_def)
qed

lemma store_inv_exec: "store_inv st \<Longrightarrow> store_inv (exec c st)"
  by (cases c)
     (auto simp: store_inv_create store_inv_getOrCreate
       intro: store_inv_destroy store_inv_add store_inv_remove_component split: sum.splits)

lemma store_inv_exec_all: "store_inv st \<Longrightarrow> store_inv (exec_all cs st)"
  by (induction cs arbitrary: st) (simp_all add: store_inv_exec)

lemma store_inv_empty: "store_inv (empty_store policy)"
  by (simp add: store_inv_def empty_store_def)

subsection \<open>The registry keeps its order\<close>

lemma priority_less_irrefl: "\<not> priority_less p p"
  by (cases p) simp_all



lemma priority_less_asym: "priority_less p q \<Longrightarrow> \<not> priority_less q p"
  by (cases p; cases q) auto



lemma runs_before_asym: "runs_before a b \<Longrightarrow> \<not> runs_before b a"
  unfolding runs_before_def
  by (auto dest: priority_less_asym simp: priority_less_irrefl)

lemma set_insert_system: "set (insert_system s xs) = insert s (set xs)"
  by (induction xs) auto


lemma map_reg_seq_insert_system:
  "set (map reg_seq (insert_system s xs)) = insert (reg_seq s) (set (map reg_seq xs))"
  by (simp add: set_insert_system)












subsection \<open>What a frame does to the store\<close>

lemma exec_all_preserves:
  assumes step: "\<And>c st. P st \<Longrightarrow> P (exec c st)"
  shows "P st \<Longrightarrow> P (exec_all cs st)"
  by (induction cs arbitrary: st) (simp_all add: step)

lemma run_hook_preserves:
  assumes step: "\<And>c st. P st \<Longrightarrow> P (exec c st)"
  shows "P st \<Longrightarrow> P (fst (run_hook x h body st))"
  by (simp add: run_hook_def split_def Let_def exec_all_preserves [where P = P, OF step])

lemma run_system_preserves:
  assumes step: "\<And>c st. P st \<Longrightarrow> P (exec c st)"
  shows "P st \<Longrightarrow> P (fst (run_system elapsedMs delta x st))"
  by (simp add: run_system_def split_def Let_def run_hook_preserves [where P = P, OF step])

lemma run_phase_preserves:
  assumes step: "\<And>c st. P st \<Longrightarrow> P (exec c st)"
  shows "P st \<Longrightarrow> P (fst (run_phase elapsedMs delta xs st))"
  by (induction xs arbitrary: st)
     (simp_all add: split_def Let_def run_system_preserves [where P = P, OF step])

lemma initialize_all_preserves:
  assumes step: "\<And>c st. P st \<Longrightarrow> P (exec c st)"
  shows "P st \<Longrightarrow> P (fst (initialize_all bound xs st))"
  by (induction xs arbitrary: st)
     (simp_all add: split_def Let_def run_hook_preserves [where P = P, OF step])

lemma tick_preserves:
  assumes step: "\<And>c st. P st \<Longrightarrow> P (exec c st)"
  shows "P (store w) \<Longrightarrow> P (store (fst (tick elapsedMs delta w)))"
  by (simp add: tick_def initialization_pass_def split_def Let_def
      run_phase_preserves [where P = P, OF step] initialize_all_preserves [where P = P, OF step])

lemma apply_host_preserves:
  assumes step: "\<And>c st. P st \<Longrightarrow> P (exec c st)"
  shows "P (store w) \<Longrightarrow> P (store (apply_host x w))"
  by (cases x) (simp_all add: step tick_preserves [where P = P, OF step])

lemma run_host_preserves:
  assumes step: "\<And>c st. P st \<Longrightarrow> P (exec c st)"
  shows "P (store w) \<Longrightarrow> P (store (run_host xs w))"
  by (induction xs arbitrary: w) (simp_all add: apply_host_preserves [where P = P, OF step])





subsection \<open>The order in which a frame runs the systems\<close>










subsection \<open>Handles of destroyed entities\<close>

lemma retired_not_live: "retired st e \<Longrightarrow> \<not> is_live st e"
  by (simp add: retired_def is_live_def)

lemma slot_generation_create: "slot_generation (snd (create st)) = slot_generation st"
  by (simp add: create_def Let_def entity_changed_fields split: list.split)

lemma slot_generation_add: "add e c st = Inr st' \<Longrightarrow> slot_generation st' = slot_generation st"
  by (auto simp: add_def component_changed_fields split: if_splits)

lemma slot_generation_detach_all:
  "slot_generation (detach_all e ts st) = slot_generation st"
proof (induction ts arbitrary: st)
  case Nil
  then show ?case by simp
next
  case (Cons t ts)
  then show ?case
    by (cases "remove_component e t st") (auto simp: remove_component_Inr(3))
qed

lemma slot_generation_destroy:
  "destroy e st = Inr st' \<Longrightarrow>
   slot_generation st' = (slot_generation st)(slot e := Suc (generation e)) \<and> is_live st e"
  by (auto simp: destroy_def Let_def entity_changed_fields slot_generation_detach_all
      split: if_splits)

lemma slot_generation_getOrCreate: "slot_generation (snd (getOrCreate sig st)) = slot_generation st"
  by (simp add: getOrCreate_def Let_def split: option.split)

lemma retired_exec: "retired st e \<Longrightarrow> retired (exec c st) e"
proof (cases c)
  case Create
  then show "retired st e \<Longrightarrow> retired (exec c st) e"
    by (simp add: retired_def slot_generation_create)
next
  case (Destroy e')
  assume r: "retired st e"
  show "retired (exec c st) e"
  proof (cases "destroy e' st")
    case (Inl err)
    with Destroy r show ?thesis by simp
  next
    case (Inr st')
    from slot_generation_destroy [OF Inr] r have "retired st' e"
      by (auto simp: retired_def is_live_def)
    with Destroy Inr show ?thesis by simp
  qed
next
  case (Add e' comp)
  then show "retired st e \<Longrightarrow> retired (exec c st) e"
    by (cases "add e' comp st") (auto simp: retired_def slot_generation_add)
next
  case (Remove e' t)
  then show "retired st e \<Longrightarrow> retired (exec c st) e"
    by (cases "remove_component e' t st") (auto simp: retired_def remove_component_Inr(3))
next
  case (GetOrCreate sig)
  then show "retired st e \<Longrightarrow> retired (exec c st) e"
    by (simp add: retired_def slot_generation_getOrCreate)
qed

lemma create_handle:
  "generation (fst (create st)) = slot_generation st (slot (fst (create st)))"
  by (simp add: create_def Let_def split: list.split)

text \<open>
  C6. Once \<^verbatim>\<open>destroy(E)\<close> has succeeded, then after whatever the host and the systems do
  next (calls, registrations, frames), \<^verbatim>\<open>get\<close>, \<^verbatim>\<open>add\<close> and \<^verbatim>\<open>remove\<close>
  with the old handle signal \<open>StaleEntity\<close> (and so does a second \<^verbatim>\<open>destroy\<close>); an
  entity created then in the slot of \<open>E\<close> has a later generation, and no created entity
  is \<open>E\<close>.
\<close>

theorem stale_handle_rejected:
  assumes "destroy e (store w) = Inr st1" and "w2 = run_host ops (w\<lparr>store := st1\<rparr>)"
  shows "get e t (store w2) = Inl StaleEntity \<and>
     add e c (store w2) = Inl StaleEntity \<and>
     remove_component e t (store w2) = Inl StaleEntity \<and>
     destroy e (store w2) = Inl StaleEntity \<and>
     (slot (fst (create (store w2))) = slot e \<longrightarrow>
        generation e < generation (fst (create (store w2)))) \<and>
     fst (create (store w2)) \<noteq> e"
proof -
  from slot_generation_destroy [OF assms(1)] have "retired st1 e"
    by (simp add: retired_def)
  then have "retired (store (w\<lparr>store := st1\<rparr>)) e"
    by simp
  with run_host_preserves [where P = "\<lambda>st. retired st e" and w = "w\<lparr>store := st1\<rparr>"
      and xs = ops, OF retired_exec]
  have r: "retired (store w2) e"
    unfolding assms(2) by blast
  then have dead: "\<not> is_live (store w2) e"
    by (rule retired_not_live)
  have new: "slot (fst (create (store w2))) = slot e \<longrightarrow>
      generation e < generation (fst (create (store w2)))"
    using r by (auto simp: create_handle retired_def)
  then have "fst (create (store w2)) \<noteq> e"
    by auto
  with dead new show ?thesis
    by (simp add: get_def add_def remove_component_def destroy_def)
qed

subsection \<open>Query membership\<close>

text \<open>
  C1. In a world that the host has brought about from a new one by calls, registrations and
  frames, every query of the index lists an entity exactly when the entity is alive and its
  component-type set is a superset of the query's signature.
\<close>

theorem query_membership_invariant:
  assumes "w = run_host ops (new_world policy bound)" and "q \<in> set (queries (store w))"
  shows "(e \<in> set (matches q)) = (is_live (store w) e \<and> signature q \<subseteq> type_set (store w) e)"
proof -
  have "store_inv (store (new_world policy bound))"
    by (simp add: new_world_def store_inv_empty)
  with run_host_preserves [where P = store_inv and w = "new_world policy bound" and xs = ops,
      OF store_inv_exec]
  have "store_inv (store w)"
    unfolding assms(1) by blast
  with assms(2) show ?thesis
    by (simp add: store_inv_def satisfies_def)
qed

subsection \<open>Execution order within a phase\<close>


subsection \<open>The properties on concrete worlds\<close>

lemma example_world_query:
  "\<lparr>signature = {Position, Velocity}, matches = [Entity 0 0, Entity 1 0]\<rparr>
     \<in> set (queries (store example_world))"
  unfolding example_world_def by code_simp

lemma example_world_live: "is_live (store example_world) (Entity 0 0)"
  unfolding example_world_def by code_simp

lemma example_world_destroy: "destroy (Entity 0 0) (store example_world) = Inr gone_store"
  using example_world_live by (simp add: destroy_def Let_def gone_store_def)

lemma gone_store_create:
  "fst (create (store (run_host [Command (GetOrCreate {Position}), Tick 16 16]
      (example_world\<lparr>store := gone_store\<rparr>)))) = Entity 0 1"
  unfolding gone_store_def example_world_def by code_simp


theorem query_membership_invariant_witness:
  "\<lparr>signature = {Position, Velocity}, matches = [Entity 0 0, Entity 1 0]\<rparr>
     \<in> set (queries (store example_world)) \<and>
   is_live (store example_world) (Entity 1 0) \<and>
   {Position, Velocity} \<subseteq> type_set (store example_world) (Entity 1 0) \<and>
   \<not> (is_live (store example_world) (Entity 2 0) \<and>
      {Position, Velocity} \<subseteq> type_set (store example_world) (Entity 2 0))"
proof -
  let ?q = "\<lparr>signature = {Position, Velocity}, matches = [Entity 0 0, Entity 1 0]\<rparr>"
  note q = example_world_query
  from query_membership_invariant [OF example_world_def q, of "Entity 1 0"]
  have "is_live (store example_world) (Entity 1 0) \<and>
      {Position, Velocity} \<subseteq> type_set (store example_world) (Entity 1 0)"
    by simp
  moreover from query_membership_invariant [OF example_world_def q, of "Entity 2 0"]
  have "\<not> (is_live (store example_world) (Entity 2 0) \<and>
      {Position, Velocity} \<subseteq> type_set (store example_world) (Entity 2 0))"
    by simp
  ultimately show ?thesis
    using q by blast
qed

theorem stale_handle_rejected_witness:
  "destroy (Entity 0 0) (store example_world) = Inr gone_store \<and>
   get (Entity 0 0) Position
     (store (run_host [Command (GetOrCreate {Position}), Tick 16 16]
        (example_world\<lparr>store := gone_store\<rparr>))) = Inl StaleEntity \<and>
   add (Entity 0 0) \<lparr>comp_type = Position, comp_data = 1\<rparr>
     (store (run_host [Command (GetOrCreate {Position}), Tick 16 16]
        (example_world\<lparr>store := gone_store\<rparr>))) = Inl StaleEntity \<and>
   remove_component (Entity 0 0) Position
     (store (run_host [Command (GetOrCreate {Position}), Tick 16 16]
        (example_world\<lparr>store := gone_store\<rparr>))) = Inl StaleEntity \<and>
   fst (create (store (run_host [Command (GetOrCreate {Position}), Tick 16 16]
        (example_world\<lparr>store := gone_store\<rparr>)))) = Entity 0 1 \<and>
   generation (Entity 0 0) < generation (Entity 0 1)"
proof -
  let ?w2 = "run_host [Command (GetOrCreate {Position}), Tick 16 16]
      (example_world\<lparr>store := gone_store\<rparr>)"
  from stale_handle_rejected [OF example_world_destroy refl,
      where ops = "[Command (GetOrCreate {Position}), Tick 16 16]" and t = Position
        and c = "\<lparr>comp_type = Position, comp_data = 1\<rparr>"]
  have "get (Entity 0 0) Position (store ?w2) = Inl StaleEntity"
    and "add (Entity 0 0) \<lparr>comp_type = Position, comp_data = 1\<rparr> (store ?w2) = Inl StaleEntity"
    and "remove_component (Entity 0 0) Position (store ?w2) = Inl StaleEntity"
    and "slot (fst (create (store ?w2))) = slot (Entity 0 0) \<longrightarrow>
      generation (Entity 0 0) < generation (fst (create (store ?w2)))"
    by blast+
  with example_world_destroy gone_store_create show ?thesis
    by simp
qed


end
